theory Spec2Isabelle
  imports Main "HOL-Library.Word" "HOL-Library.Multiset"
begin

section \<open>Relay engine: shared helpers of services/relay\_common.go\<close>

text \<open>
  A shallow embedding of the pure parts of \<^verbatim>\<open>services/relay_common.go\<close>:
  provider filtering, round-robin reordering, the retry context, the failure response
  and the repair of incomplete tool-use histories. Logging through \<^verbatim>\<open>fmt.Printf\<close>
  has no effect on any returned value and is left out. All definitions come first, the
  properties follow.
\<close>

subsection \<open>Providers\<close>

text \<open>
  The structs \<^verbatim>\<open>Provider\<close> and \<^verbatim>\<open>GeminiProvider\<close> are declared in another file
  of the package; the records hold the fields that this file reads, and the record
  extension stands for the remaining ones. The fields of \<^verbatim>\<open>GeminiProvider\<close> carry
  the prefix \<open>G\<close>, since both structs name theirs alike.
\<close>

record Provider =
  Name :: string
  APIURL :: string
  APIKey :: string
  Enabled :: bool
  Level :: int

record GeminiProvider =
  GName :: string
  GBaseURL :: string
  GEnabled :: bool
  GLevel :: int

definition GetName :: "'a Provider_scheme \<Rightarrow> string" where
  "GetName p = Name p"

definition GetLevel :: "'a Provider_scheme \<Rightarrow> int" where
  "GetLevel p = (if Level p \<le> 0 then 1 else Level p)"

definition IsEnabled :: "'a Provider_scheme \<Rightarrow> bool" where
  "IsEnabled p = Enabled p"

definition HasValidConfig :: "'a Provider_scheme \<Rightarrow> bool" where
  "HasValidConfig p = (APIURL p \<noteq> [] \<and> APIKey p \<noteq> [])"

definition GeminiGetName :: "'a GeminiProvider_scheme \<Rightarrow> string" where
  "GeminiGetName p = GName p"

definition GeminiGetLevel :: "'a GeminiProvider_scheme \<Rightarrow> int" where
  "GeminiGetLevel p = (if GLevel p \<le> 0 then 1 else GLevel p)"

definition GeminiIsEnabled :: "'a GeminiProvider_scheme \<Rightarrow> bool" where
  "GeminiIsEnabled p = GEnabled p"

definition GeminiHasValidConfig :: "'a GeminiProvider_scheme \<Rightarrow> bool" where
  "GeminiHasValidConfig p = (GBaseURL p \<noteq> [])"

subsection \<open>Provider filtering\<close>

text \<open>
  \<^verbatim>\<open>FilterResult[T]\<close>. \<open>SkippedCount\<close> is a Go \<^verbatim>\<open>int\<close> that starts at 0 and
  is incremented at most once per element of the input slice, so it never leaves the
  range of the machine integer (lemma \<open>FilterProviders_loop_SkippedCount_bounds\<close>) and is
  modelled by \<open>int\<close>.
\<close>

record 'p FilterResult =
  Active :: "'p list"
  SkippedCount :: int

text \<open>
  The three hooks are function values that may be \<^verbatim>\<open>nil\<close>: \<open>None\<close> is \<^verbatim>\<open>nil\<close>.
  The blacklist checker returns the flag and the expiry time (only printed); the type of
  times is left open. The hooks are taken as pure functions of their arguments.
\<close>

type_synonym 't blacklistChecker = "(string \<Rightarrow> string \<Rightarrow> bool \<times> 't) option"
type_synonym 'a modelChecker = "('a Provider_scheme \<Rightarrow> string \<Rightarrow> bool) option"
type_synonym 'a configValidator = "('a Provider_scheme \<Rightarrow> string list) option"

text \<open>The body of the \<^verbatim>\<open>for _, provider := range providers\<close> loop of \<^verbatim>\<open>FilterProviders\<close>,
  one equation per iteration, the result record threaded through.\<close>

fun FilterProviders_loop ::
  "string \<Rightarrow> string \<Rightarrow> 't blacklistChecker \<Rightarrow> 'a modelChecker \<Rightarrow> 'a configValidator \<Rightarrow>
   'a Provider_scheme list \<Rightarrow> 'a Provider_scheme FilterResult \<Rightarrow> 'a Provider_scheme FilterResult" where
  "FilterProviders_loop kind requestedModel blacklistChecker modelChecker configValidator [] result = result"
| "FilterProviders_loop kind requestedModel blacklistChecker modelChecker configValidator (provider # rest) result =
     (if \<not> IsEnabled provider \<or> \<not> HasValidConfig provider then
        FilterProviders_loop kind requestedModel blacklistChecker modelChecker configValidator rest result
      else if (case configValidator of None \<Rightarrow> False | Some cv \<Rightarrow> length (cv provider) > 0) then
        FilterProviders_loop kind requestedModel blacklistChecker modelChecker configValidator rest
          (result\<lparr>SkippedCount := SkippedCount result + 1\<rparr>)
      else if (case modelChecker of None \<Rightarrow> False
               | Some mc \<Rightarrow> requestedModel \<noteq> [] \<and> \<not> mc provider requestedModel) then
        FilterProviders_loop kind requestedModel blacklistChecker modelChecker configValidator rest
          (result\<lparr>SkippedCount := SkippedCount result + 1\<rparr>)
      else if (case blacklistChecker of None \<Rightarrow> False | Some bc \<Rightarrow> fst (bc kind (Name provider))) then
        FilterProviders_loop kind requestedModel blacklistChecker modelChecker configValidator rest
          (result\<lparr>SkippedCount := SkippedCount result + 1\<rparr>)
      else
        FilterProviders_loop kind requestedModel blacklistChecker modelChecker configValidator rest
          (result\<lparr>Active := Active result @ [provider]\<rparr>))"

definition FilterProviders ::
  "'a Provider_scheme list \<Rightarrow> string \<Rightarrow> string \<Rightarrow> 't blacklistChecker \<Rightarrow> 'a modelChecker \<Rightarrow>
   'a configValidator \<Rightarrow> 'a Provider_scheme FilterResult" where
  "FilterProviders providers kind requestedModel blacklistChecker modelChecker configValidator =
     FilterProviders_loop kind requestedModel blacklistChecker modelChecker configValidator providers
       \<lparr>Active = [], SkippedCount = 0\<rparr>"

text \<open>The loop of \<^verbatim>\<open>FilterGeminiProviders\<close>: the blacklist branch skips the provider
  and leaves \<open>SkippedCount\<close> as it is.\<close>

fun FilterGeminiProviders_loop ::
  "'t blacklistChecker \<Rightarrow> 'a GeminiProvider_scheme list \<Rightarrow> 'a GeminiProvider_scheme FilterResult \<Rightarrow>
   'a GeminiProvider_scheme FilterResult" where
  "FilterGeminiProviders_loop blacklistChecker [] result = result"
| "FilterGeminiProviders_loop blacklistChecker (provider # rest) result =
     (if \<not> GeminiIsEnabled provider \<or> \<not> GeminiHasValidConfig provider then
        FilterGeminiProviders_loop blacklistChecker rest result
      else if (case blacklistChecker of None \<Rightarrow> False | Some bc \<Rightarrow> fst (bc ''gemini'' (GName provider))) then
        FilterGeminiProviders_loop blacklistChecker rest result
      else
        FilterGeminiProviders_loop blacklistChecker rest (result\<lparr>Active := Active result @ [provider]\<rparr>))"

definition FilterGeminiProviders ::
  "'a GeminiProvider_scheme list \<Rightarrow> 't blacklistChecker \<Rightarrow> 'a GeminiProvider_scheme FilterResult" where
  "FilterGeminiProviders providers blacklistChecker =
     FilterGeminiProviders_loop blacklistChecker providers \<lparr>Active = [], SkippedCount = 0\<rparr>"

subsection \<open>Round-robin reordering\<close>

text \<open>
  \<^verbatim>\<open>RoundRobinState\<close>: the map \<open>lastStart\<close> from the key \<^verbatim>\<open>"platform:level"\<close> to the
  name of the provider that came first the last time. The mutex makes one call of
  \<^verbatim>\<open>Reorder\<close> atomic; a call is modelled as one function from the state before to the
  result and the state after.
\<close>

record RoundRobinState =
  lastStart :: "string \<rightharpoonup> string"

definition NewRoundRobinState :: RoundRobinState where
  "NewRoundRobinState = \<lparr>lastStart = Map.empty\<rparr>"

text \<open>Reading a Go map at a key it does not hold gives the zero value, the empty string.\<close>

definition map_index :: "(string \<rightharpoonup> string) \<Rightarrow> string \<Rightarrow> string" where
  "map_index m k = (case m k of None \<Rightarrow> [] | Some v \<Rightarrow> v)"

text \<open>The verb \<^verbatim>\<open>%d\<close>: an integer in decimal, with a minus sign when negative.\<close>

fun decimal :: "nat \<Rightarrow> string" where
  "decimal n = (if n < 10 then [char_of (48 + n)] else decimal (n div 10) @ [char_of (48 + n mod 10)])"

declare decimal.simps [simp del]

definition format_int :: "int \<Rightarrow> string" where
  "format_int i = (if i < 0 then CHR ''-'' # decimal (nat (- i)) else decimal (nat i))"

text \<open>\<^verbatim>\<open>fmt.Sprintf("%s:%d", platform, level)\<close>\<close>

definition state_key :: "string \<Rightarrow> int \<Rightarrow> string" where
  "state_key platform level = platform @ '':'' @ format_int level"

text \<open>The search loop of \<^verbatim>\<open>Reorder\<close>: the first index whose provider has the stored
  name (the local \<^verbatim>\<open>lastStart\<close> of the source, \<open>last_start\<close> here, where the record
  field has that name); \<open>None\<close> is the \<^verbatim>\<open>-1\<close> of the source.\<close>

fun find_lastIdx :: "('p \<Rightarrow> string) \<Rightarrow> string \<Rightarrow> 'p list \<Rightarrow> nat option" where
  "find_lastIdx getName last_start [] = None"
| "find_lastIdx getName last_start (p # ps) =
     (if getName p = last_start then Some 0 else map_option Suc (find_lastIdx getName last_start ps))"

text \<open>
  \<^verbatim>\<open>Reorder\<close> returns the new order and the state after the call. The indices
  \<open>lastIdx + 1 + i\<close> stay below twice the length of the slice and are natural numbers
  here.
\<close>

definition Reorder ::
  "RoundRobinState \<Rightarrow> string \<Rightarrow> int \<Rightarrow> 'p list \<Rightarrow> ('p \<Rightarrow> string) \<Rightarrow> 'p list \<times> RoundRobinState" where
  "Reorder rrs platform level providers getName =
     (if length providers \<le> 1 then (providers, rrs)
      else
        let key = state_key platform level;
            last_start = map_index (lastStart rrs) key;
            rrs1 = rrs\<lparr>lastStart := (lastStart rrs)(key \<mapsto> getName (providers ! 0))\<rparr>
        in if last_start = [] then (providers, rrs1)
           else (case find_lastIdx getName last_start providers of
                   None \<Rightarrow> (providers, rrs1)
                 | Some lastIdx \<Rightarrow>
                     let result = map (\<lambda>i. providers ! ((lastIdx + 1 + i) mod length providers))
                                    [0..<length providers];
                         rrs2 = rrs1\<lparr>lastStart := (lastStart rrs1)(key \<mapsto> getName (result ! 0))\<rparr>
                     in (result, rrs2)))"

subsection \<open>Retry context\<close>

text \<open>
  A Go \<^verbatim>\<open>error\<close> is an interface value, \<^verbatim>\<open>nil\<close> or a value with the method
  \<^verbatim>\<open>Error()\<close>: \<open>go_error option\<close>, with \<open>None\<close> for \<^verbatim>\<open>nil\<close>.
  \<^verbatim>\<open>int\<close> and \<^verbatim>\<open>time.Duration\<close> are 64-bit signed integers on the platforms the
  application is built for; \<^verbatim>\<open>++\<close> wraps around.
\<close>

datatype go_error = GoError string


record RetryContext =
  MaxRetryPerProvider :: "64 word"
  RetryWaitDuration :: "64 word"
  TotalAttempts :: "64 word"
  LastError :: "go_error option"
  LastProvider :: string
  LastDuration :: "64 word"

definition RecordAttempt :: "RetryContext \<Rightarrow> string \<Rightarrow> 64 word \<Rightarrow> go_error option \<Rightarrow> RetryContext" where
  "RecordAttempt rc provider duration err =
     (let rc1 = rc\<lparr>TotalAttempts := TotalAttempts rc + 1\<rparr>;
          rc2 = rc1\<lparr>LastProvider := provider\<rparr>;
          rc3 = rc2\<lparr>LastDuration := duration\<rparr>
      in if err \<noteq> None then rc3\<lparr>LastError := err\<rparr> else rc3)"

subsection \<open>Failure response\<close>






subsection \<open>JSON values and the operations of gjson and sjson that the repair uses\<close>

text \<open>
  The request body is a JSON document. The libraries gjson and sjson read and write it
  as bytes; the model works on the parsed value. An object keeps its members in source
  order, duplicates included, because gjson answers a key with its first member. The
  text of a number is kept as written.
\<close>

datatype json =
  JNull
| JBool bool
| JNumber string
| JString string
| JArray "json list"
| JObject "(string \<times> json) list"

text \<open>
  \<^verbatim>\<open>Result.Get(key)\<close> for a key without path syntax (the keys used are
  \<^verbatim>\<open>messages\<close>, \<^verbatim>\<open>role\<close>, \<^verbatim>\<open>content\<close>, \<^verbatim>\<open>type\<close> and \<^verbatim>\<open>id\<close>): the first member
  of an object with that key; nothing on an array (the key is no index) or on a scalar.
  \<open>None\<close> is the result that does not exist.
\<close>

fun Get :: "json \<Rightarrow> string \<Rightarrow> json option" where
  "Get (JObject members) key = map_of members key"
| "Get v key = None"

text \<open>
  \<^verbatim>\<open>Result.String()\<close>: empty for a missing result and for \<^verbatim>\<open>null\<close>, the literal for a
  boolean, the decoded text for a string. For a number, an array or an object gjson
  returns text computed from the source bytes of the value; that rendering is the
  parameter \<open>text_of\<close>.
\<close>

fun String :: "(json \<Rightarrow> string) \<Rightarrow> json option \<Rightarrow> string" where
  "String text_of None = []"
| "String text_of (Some JNull) = []"
| "String text_of (Some (JBool b)) = (if b then ''true'' else ''false'')"
| "String text_of (Some (JString s)) = s"
| "String text_of (Some v) = text_of v"

text \<open>The backward loop of \<^verbatim>\<open>FixIncompleteToolUse\<close> over the indices below \<open>n\<close>:
  the last message whose role is \<^verbatim>\<open>assistant\<close>; \<open>None\<close> is the \<^verbatim>\<open>-1\<close> of the source.\<close>

fun find_lastAssistantIdx :: "(json \<Rightarrow> string) \<Rightarrow> json list \<Rightarrow> nat \<Rightarrow> nat option" where
  "find_lastAssistantIdx text_of messagesArray 0 = None"
| "find_lastAssistantIdx text_of messagesArray (Suc i) =
     (if String text_of (Get (messagesArray ! i) ''role'') = ''assistant'' then Some i
      else find_lastAssistantIdx text_of messagesArray i)"

text \<open>The first \<^verbatim>\<open>ForEach\<close>: the ids of the \<^verbatim>\<open>tool_use\<close> items, in order, empty ids left out.\<close>

fun collect_toolUseIDs :: "(json \<Rightarrow> string) \<Rightarrow> json list \<Rightarrow> string list" where
  "collect_toolUseIDs text_of [] = []"
| "collect_toolUseIDs text_of (item # items) =
     (if String text_of (Get item ''type'') = ''tool_use'' then
        (let tool_id = String text_of (Get item ''id'')
         in if tool_id \<noteq> [] then tool_id # collect_toolUseIDs text_of items
            else collect_toolUseIDs text_of items)
      else collect_toolUseIDs text_of items)"

text \<open>The check of the message right after the last assistant message.\<close>

definition hasToolResult :: "(json \<Rightarrow> string) \<Rightarrow> json list \<Rightarrow> nat \<Rightarrow> bool" where
  "hasToolResult text_of messagesArray lastAssistantIdx =
     (if lastAssistantIdx + 1 < length messagesArray then
        (let nextMsg = messagesArray ! (lastAssistantIdx + 1)
         in if String text_of (Get nextMsg ''role'') = ''user'' then
              (case Get nextMsg ''content'' of
                 Some (JArray nextItems) \<Rightarrow>
                   list_ex (\<lambda>item. String text_of (Get item ''type'') = ''tool_result'') nextItems
               | _ \<Rightarrow> False)
            else False)
      else False)"

definition interrupted_text :: string where
  "interrupted_text =
    [CHR 0xE5, CHR 0xB7, CHR 0xA5, CHR 0xE5, CHR 0x85, CHR 0xB7, CHR 0xE8, CHR 0xB0, CHR 0x83,
     CHR 0xE7, CHR 0x94, CHR 0xA8, CHR 0xE8, CHR 0xA2, CHR 0xAB, CHR 0xE4, CHR 0xB8, CHR 0xAD,
     CHR 0xE6, CHR 0x96, CHR 0xAD, CHR 0xEF, CHR 0xBC, CHR 0x88, CHR 0xE4, CHR 0xB8, CHR 0xAD,
     CHR 0xE8, CHR 0xBD, CHR 0xAC, CHR 0xE7, CHR 0xAB, CHR 0x99, CHR 0xE5, CHR 0x88, CHR 0x87,
     CHR 0xE6, CHR 0x8D, CHR 0xA2, CHR 0xEF, CHR 0xBC, CHR 0x89, CHR 0xEF, CHR 0xBC, CHR 0x8C,
     CHR 0xE8, CHR 0xAF, CHR 0xB7, CHR 0xE9, CHR 0x87, CHR 0x8D, CHR 0xE6, CHR 0x96, CHR 0xB0,
     CHR 0xE6, CHR 0x89, CHR 0xA7, CHR 0xE8, CHR 0xA1, CHR 0x8C, CHR 0xE6, CHR 0xAD, CHR 0xA4,
     CHR 0xE6, CHR 0x93, CHR 0x8D, CHR 0xE4, CHR 0xBD, CHR 0x9C]"

text \<open>
  The synthetic message. The source builds Go maps, which \<^verbatim>\<open>encoding/json\<close> writes
  with their keys sorted; the members are listed in that order.
\<close>

definition toolResult :: "string \<Rightarrow> json" where
  "toolResult tool_id =
     JObject [(''content'', JString interrupted_text), (''is_error'', JBool True),
              (''tool_use_id'', JString tool_id), (''type'', JString ''tool_result'')]"

definition newUserMsg :: "string list \<Rightarrow> json" where
  "newUserMsg toolUseIDs =
     JObject [(''content'', JArray (map toolResult toolUseIDs)), (''role'', JString ''user'')]"

text \<open>
  \<^verbatim>\<open>sjson.SetBytes(json, "<key>.<n>", value)\<close> where the first member \<open>key\<close> of the
  object holds an array: the element \<open>n\<close> is replaced, or the array is padded with
  \<^verbatim>\<open>null\<close> up to \<open>n\<close> and the value appended. The other shapes of the document are
  not reached from \<^verbatim>\<open>FixIncompleteToolUse\<close>; for them the model answers \<open>Inl\<close>, the
  side on which sjson reports an error.
\<close>

definition set_element :: "json list \<Rightarrow> nat \<Rightarrow> json \<Rightarrow> json list" where
  "set_element xs n v =
     (if n < length xs then xs[n := v] else xs @ replicate (n - length xs) JNull @ [v])"

fun set_member_element ::
  "string \<Rightarrow> nat \<Rightarrow> json \<Rightarrow> (string \<times> json) list \<Rightarrow> (string \<times> json) list option" where
  "set_member_element key n v [] = None"
| "set_member_element key n v ((k, x) # members) =
     (if k = key then
        (case x of JArray xs \<Rightarrow> Some ((k, JArray (set_element xs n v)) # members) | _ \<Rightarrow> None)
      else map_option ((#) (k, x)) (set_member_element key n v members))"

definition SetBytes :: "json \<Rightarrow> string \<Rightarrow> nat \<Rightarrow> json \<Rightarrow> string + json" where
  "SetBytes doc key n v =
     (case doc of
        JObject members \<Rightarrow>
          (case set_member_element key n v members of
             Some members' \<Rightarrow> Inr (JObject members')
           | None \<Rightarrow> Inl ''unsupported document'')
      | _ \<Rightarrow> Inl ''unsupported document'')"

definition repair_failed_prefix :: string where
  "repair_failed_prefix =
    [CHR 0xE8, CHR 0xA1, CHR 0xA5, CHR 0xE5, CHR 0x85, CHR 0x85, CHR '' '', CHR ''t'',
     CHR ''o'', CHR ''o'', CHR ''l'', CHR ''_'', CHR ''r'', CHR ''e'', CHR ''s'', CHR ''u'',
     CHR ''l'', CHR ''t'', CHR '' '', CHR 0xE5, CHR 0xA4, CHR 0xB1, CHR 0xE8, CHR 0xB4,
     CHR 0xA5, CHR '':'', CHR '' '']"

text \<open>
  \<^verbatim>\<open>FixIncompleteToolUse\<close> returns the body, the flag \<^verbatim>\<open>repaired\<close> and the error.
  Every early return gives back the argument itself.
\<close>

definition FixIncompleteToolUse :: "(json \<Rightarrow> string) \<Rightarrow> json \<Rightarrow> json \<times> bool \<times> go_error option" where
  "FixIncompleteToolUse text_of bodyBytes =
     (case Get bodyBytes ''messages'' of
        Some (JArray messagesArray) \<Rightarrow>
          if length messagesArray = 0 then (bodyBytes, False, None)
          else
            (case find_lastAssistantIdx text_of messagesArray (length messagesArray) of
               None \<Rightarrow> (bodyBytes, False, None)
             | Some lastAssistantIdx \<Rightarrow>
                 (case Get (messagesArray ! lastAssistantIdx) ''content'' of
                    Some (JArray items) \<Rightarrow>
                      (let toolUseIDs = collect_toolUseIDs text_of items
                       in if length toolUseIDs = 0 then (bodyBytes, False, None)
                          else if hasToolResult text_of messagesArray lastAssistantIdx
                          then (bodyBytes, False, None)
                          else
                            (case SetBytes bodyBytes ''messages'' (length messagesArray)
                                    (newUserMsg toolUseIDs) of
                               Inl err \<Rightarrow> (bodyBytes, False, Some (GoError (repair_failed_prefix @ err)))
                             | Inr modified \<Rightarrow> (modified, True, None)))
                  | _ \<Rightarrow> (bodyBytes, False, None)))
      | _ \<Rightarrow> (bodyBytes, False, None))"

section \<open>Properties\<close>

subsection \<open>Provider filtering\<close>

text \<open>What the two loops compute: the providers that pass every step, appended in input
  order, and the number of counted skips.\<close>

lemma FilterProviders_loop_Active:
  "Active (FilterProviders_loop kind model bc mc cv ps r) =
     Active r @ filter (\<lambda>p. IsEnabled p \<and> HasValidConfig p
        \<and> (case cv of None \<Rightarrow> True | Some f \<Rightarrow> f p = [])
        \<and> (case mc of None \<Rightarrow> True | Some f \<Rightarrow> model = [] \<or> f p model)
        \<and> (case bc of None \<Rightarrow> True | Some f \<Rightarrow> \<not> fst (f kind (Name p)))) ps"
  by (induction ps arbitrary: r) (auto split: option.splits)

lemma FilterProviders_loop_SkippedCount:
  "SkippedCount (FilterProviders_loop kind model bc mc cv ps r) =
     SkippedCount r + int (length (filter (\<lambda>p. IsEnabled p \<and> HasValidConfig p
        \<and> \<not> ((case cv of None \<Rightarrow> True | Some f \<Rightarrow> f p = [])
        \<and> (case mc of None \<Rightarrow> True | Some f \<Rightarrow> model = [] \<or> f p model)
        \<and> (case bc of None \<Rightarrow> True | Some f \<Rightarrow> \<not> fst (f kind (Name p))))) ps))"
  by (induction ps arbitrary: r) (auto split: option.splits)

lemma FilterGeminiProviders_loop_Active:
  "Active (FilterGeminiProviders_loop bc ps r) =
     Active r @ filter (\<lambda>p. GeminiIsEnabled p \<and> GeminiHasValidConfig p
        \<and> (case bc of None \<Rightarrow> True | Some f \<Rightarrow> \<not> fst (f ''gemini'' (GName p)))) ps"
  by (induction ps arbitrary: r) (auto split: option.splits)

lemma FilterGeminiProviders_loop_SkippedCount:
  "SkippedCount (FilterGeminiProviders_loop bc ps r) = SkippedCount r"
  by (induction ps arbitrary: r) (auto split: option.splits)

lemma FilterProviders_loop_SkippedCount_bounds:
  "SkippedCount r \<le> SkippedCount (FilterProviders_loop kind model bc mc cv ps r) \<and>
   SkippedCount (FilterProviders_loop kind model bc mc cv ps r) \<le> SkippedCount r + int (length ps)"
  unfolding FilterProviders_loop_SkippedCount by simp

lemma FilterGeminiProviders_SkippedCount_zero:
  "SkippedCount (FilterGeminiProviders providers bc) = 0"
  by (simp add: FilterGeminiProviders_def FilterGeminiProviders_loop_SkippedCount)

text \<open>
  Claim C4. For every kind and name that the supplied blacklist checker reports as
  blacklisted, no provider of that name is in the \<open>Active\<close> list of \<open>FilterProviders\<close> for
  that kind, and none is in the \<open>Active\<close> list of \<open>FilterGeminiProviders\<close> when the checker
  reports the name for the kind \<^verbatim>\<open>gemini\<close>.
\<close>

theorem blacklisted_never_active:
  "(fst (bc kind n) \<longrightarrow>
      (\<forall>p \<in> set (Active (FilterProviders providers kind requestedModel (Some bc) mc cv)). Name p \<noteq> n)) \<and>
   (fst (bc ''gemini'' n) \<longrightarrow>
      (\<forall>g \<in> set (Active (FilterGeminiProviders gproviders (Some bc))). GName g \<noteq> n))"
  by (auto simp: FilterProviders_def FilterGeminiProviders_def FilterProviders_loop_Active
      FilterGeminiProviders_loop_Active)

theorem blacklisted_never_active_witness:
  "fst ((\<lambda>k n. (n = ''A'', 0::nat)) ''claude'' ''A'') \<and>
   ''A'' \<notin> Name ` set (Active (FilterProviders
      [\<lparr>Name = ''A'', APIURL = ''u'', APIKey = ''k'', Enabled = True, Level = 1\<rparr>,
       \<lparr>Name = ''B'', APIURL = ''u'', APIKey = ''k'', Enabled = True, Level = 1\<rparr>]
      ''claude'' [] (Some (\<lambda>k n. (n = ''A'', 0::nat))) None None)) \<and>
   fst ((\<lambda>k n. (n = ''A'', 0::nat)) ''gemini'' ''A'') \<and>
   ''A'' \<notin> GName ` set (Active (FilterGeminiProviders
      [\<lparr>GName = ''A'', GBaseURL = ''u'', GEnabled = True, GLevel = 1\<rparr>,
       \<lparr>GName = ''B'', GBaseURL = ''u'', GEnabled = True, GLevel = 1\<rparr>]
      (Some (\<lambda>k n. (n = ''A'', 0::nat)))))"
  using blacklisted_never_active [where bc = "\<lambda>k n. (n = ''A'', 0::nat)" and kind = "''claude''"
      and n = "''A''" and requestedModel = "[]" and mc = None and cv = None
      and providers = "[\<lparr>Name = ''A'', APIURL = ''u'', APIKey = ''k'', Enabled = True, Level = 1\<rparr>,
       \<lparr>Name = ''B'', APIURL = ''u'', APIKey = ''k'', Enabled = True, Level = 1\<rparr>]"
      and gproviders = "[\<lparr>GName = ''A'', GBaseURL = ''u'', GEnabled = True, GLevel = 1\<rparr>,
       \<lparr>GName = ''B'', GBaseURL = ''u'', GEnabled = True, GLevel = 1\<rparr>]"]
  by auto

text \<open>
  Claim C8, as stated: \<open>SkippedCount\<close> is the number of providers that the pipeline keeps
  out of \<open>Active\<close>. A disabled provider is dropped by the first step without being
  counted: one provider goes in, none comes out, and the count is 0.
\<close>

theorem SkippedCount_counts_every_excluded_counterexample:
  "SkippedCount (FilterProviders
      [\<lparr>Name = ''A'', APIURL = ''u'', APIKey = ''k'', Enabled = False, Level = 1\<rparr>]
      ''claude'' [] (None :: nat blacklistChecker) None None) = 0 \<and>
   int (length [\<lparr>Name = ''A'', APIURL = ''u'', APIKey = ''k'', Enabled = False, Level = 1\<rparr>]) -
   int (length (Active (FilterProviders
      [\<lparr>Name = ''A'', APIURL = ''u'', APIKey = ''k'', Enabled = False, Level = 1\<rparr>]
      ''claude'' [] (None :: nat blacklistChecker) None None))) = 1"
  by (simp add: FilterProviders_def IsEnabled_def)

text \<open>
  Claim C8, amended. The \<open>SkippedCount\<close> of \<open>FilterProviders\<close> is the number of enabled
  providers with a valid configuration that are kept out of \<open>Active\<close>, that is, those
  refused by the config validator, the model check or the blacklist check; the providers
  dropped by the first step (disabled, or without a valid configuration) are not counted.
\<close>

theorem SkippedCount_counts_eligible_excluded:
  "SkippedCount (FilterProviders providers kind requestedModel bc mc cv) =
     int (length (filter (\<lambda>p. IsEnabled p \<and> HasValidConfig p) providers)) -
     int (length (Active (FilterProviders providers kind requestedModel bc mc cv))) \<and>
   SkippedCount (FilterProviders providers kind requestedModel bc mc cv) =
     int (length (filter (\<lambda>p. IsEnabled p \<and> HasValidConfig p \<and>
        ((case cv of None \<Rightarrow> False | Some f \<Rightarrow> f p \<noteq> []) \<or>
         (case mc of None \<Rightarrow> False | Some f \<Rightarrow> requestedModel \<noteq> [] \<and> \<not> f p requestedModel) \<or>
         (case bc of None \<Rightarrow> False | Some f \<Rightarrow> fst (f kind (Name p))))) providers)) \<and>
   set (Active (FilterProviders providers kind requestedModel bc mc cv)) \<subseteq>
     {p \<in> set providers. IsEnabled p \<and> HasValidConfig p}"
proof -
  let ?ok = "\<lambda>p. (case cv of None \<Rightarrow> True | Some f \<Rightarrow> f p = [])
        \<and> (case mc of None \<Rightarrow> True | Some f \<Rightarrow> requestedModel = [] \<or> f p requestedModel)
        \<and> (case bc of None \<Rightarrow> True | Some f \<Rightarrow> \<not> fst (f kind (Name p)))"
  let ?el = "\<lambda>p. IsEnabled p \<and> HasValidConfig p"
  have A: "Active (FilterProviders providers kind requestedModel bc mc cv) = filter (\<lambda>p. ?el p \<and> ?ok p) providers"
    by (simp add: FilterProviders_def FilterProviders_loop_Active)
  have S: "SkippedCount (FilterProviders providers kind requestedModel bc mc cv) =
      int (length (filter (\<lambda>p. ?el p \<and> \<not> ?ok p) providers))"
    by (simp add: FilterProviders_def FilterProviders_loop_SkippedCount)
  have split: "length (filter ?el providers) =
      length (filter (\<lambda>p. ?el p \<and> ?ok p) providers) + length (filter (\<lambda>p. ?el p \<and> \<not> ?ok p) providers)"
    by (induction providers) auto
  have same: "filter (\<lambda>p. ?el p \<and> \<not> ?ok p) providers =
     filter (\<lambda>p. IsEnabled p \<and> HasValidConfig p \<and>
        ((case cv of None \<Rightarrow> False | Some f \<Rightarrow> f p \<noteq> []) \<or>
         (case mc of None \<Rightarrow> False | Some f \<Rightarrow> requestedModel \<noteq> [] \<and> \<not> f p requestedModel) \<or>
         (case bc of None \<Rightarrow> False | Some f \<Rightarrow> fst (f kind (Name p))))) providers"
    by (rule filter_cong) (auto split: option.splits)
  show ?thesis
    using split unfolding S A same [symmetric] by auto
qed

theorem SkippedCount_counts_eligible_excluded_witness:
  "SkippedCount (FilterProviders
      [\<lparr>Name = ''A'', APIURL = ''u'', APIKey = ''k'', Enabled = True, Level = 1\<rparr>,
       \<lparr>Name = ''B'', APIURL = ''u'', APIKey = ''k'', Enabled = True, Level = 1\<rparr>,
       \<lparr>Name = ''C'', APIURL = ''u'', APIKey = ''k'', Enabled = False, Level = 1\<rparr>]
      ''claude'' [] (Some (\<lambda>k n. (n = ''A'', 0::nat))) None None) = 1"
  using SkippedCount_counts_eligible_excluded [of
      "[\<lparr>Name = ''A'', APIURL = ''u'', APIKey = ''k'', Enabled = True, Level = 1\<rparr>,
       \<lparr>Name = ''B'', APIURL = ''u'', APIKey = ''k'', Enabled = True, Level = 1\<rparr>,
       \<lparr>Name = ''C'', APIURL = ''u'', APIKey = ''k'', Enabled = False, Level = 1\<rparr>]"
      "''claude''" "[]" "Some (\<lambda>k n. (n = ''A'', 0::nat))" None None]
  by (simp add: IsEnabled_def HasValidConfig_def)

subsection \<open>Retry context\<close>

text \<open>Below the largest value, the wrapping increment is an increase by one.\<close>

lemma sint_succ:
  fixes x :: "64 word"
  assumes "sint x < 9223372036854775807"
  shows "sint (x + 1) = sint x + 1"
proof -
  have lo: "- (2 ^ 63) \<le> sint x + 1" using sint_ge [of x] by simp
  have hi: "sint x + 1 < 2 ^ 63" using assms by simp
  have "sint (x + 1) = signed_take_bit 63 (sint x + 1)"
    by (simp add: sint_word_ariths)
  also have "\<dots> = sint x + 1"
    using lo hi by (rule signed_take_bit_int_eq_self)
  finally show ?thesis .
qed

text \<open>
  Claim C10, as stated: for every state \<open>TotalAttempts\<close> increases by exactly 1. At the
  largest \<^verbatim>\<open>int\<close> the increment \<^verbatim>\<open>rc.TotalAttempts++\<close> wraps around to the smallest.
\<close>

theorem RecordAttempt_max_counterexample:
  "sint (TotalAttempts (RecordAttempt
      \<lparr>MaxRetryPerProvider = 3, RetryWaitDuration = 0, TotalAttempts = 0x7FFFFFFFFFFFFFFF,
       LastError = None, LastProvider = [], LastDuration = 0\<rparr> ''A'' 5 None)) = - 9223372036854775808 \<and>
   sint (TotalAttempts
      \<lparr>MaxRetryPerProvider = 3, RetryWaitDuration = 0, TotalAttempts = 0x7FFFFFFFFFFFFFFF :: 64 word,
       LastError = None, LastProvider = [], LastDuration = 0 :: 64 word\<rparr>) = 9223372036854775807"
  by (simp add: RecordAttempt_def)

text \<open>
  Claim C10, amended. \<open>RecordAttempt\<close> adds 1 to \<open>TotalAttempts\<close> in wrapping 64-bit
  arithmetic, an increase by exactly 1 whenever the counter is below the largest
  \<^verbatim>\<open>int\<close>; it sets \<open>LastProvider\<close> and \<open>LastDuration\<close> to the arguments; it sets
  \<open>LastError\<close> to \<open>err\<close> when \<open>err\<close> is not \<^verbatim>\<open>nil\<close> and leaves the recorded
  \<open>LastError\<close> as it is when \<open>err\<close> is \<^verbatim>\<open>nil\<close>; the two configuration fields stay.
\<close>

theorem RecordAttempt_frame:
  "TotalAttempts (RecordAttempt rc provider duration err) = TotalAttempts rc + 1 \<and>
   (sint (TotalAttempts rc) < 9223372036854775807 \<longrightarrow>
      sint (TotalAttempts (RecordAttempt rc provider duration err)) = sint (TotalAttempts rc) + 1) \<and>
   LastProvider (RecordAttempt rc provider duration err) = provider \<and>
   LastDuration (RecordAttempt rc provider duration err) = duration \<and>
   (err \<noteq> None \<longrightarrow> LastError (RecordAttempt rc provider duration err) = err) \<and>
   (err = None \<longrightarrow> LastError (RecordAttempt rc provider duration err) = LastError rc) \<and>
   MaxRetryPerProvider (RecordAttempt rc provider duration err) = MaxRetryPerProvider rc \<and>
   RetryWaitDuration (RecordAttempt rc provider duration err) = RetryWaitDuration rc"
  by (simp add: RecordAttempt_def Let_def sint_succ)

theorem RecordAttempt_frame_witness:
  "sint (TotalAttempts \<lparr>MaxRetryPerProvider = 3, RetryWaitDuration = 0, TotalAttempts = 4 :: 64 word,
       LastError = Some (GoError ''timeout''), LastProvider = ''A'', LastDuration = 7 :: 64 word\<rparr>)
     < 9223372036854775807 \<and>
   sint (TotalAttempts (RecordAttempt
      \<lparr>MaxRetryPerProvider = 3, RetryWaitDuration = 0, TotalAttempts = 4,
       LastError = Some (GoError ''timeout''), LastProvider = ''A'', LastDuration = 7\<rparr> ''B'' 9 None)) = 5 \<and>
   LastError (RecordAttempt
      \<lparr>MaxRetryPerProvider = 3, RetryWaitDuration = 0, TotalAttempts = 4,
       LastError = Some (GoError ''timeout''), LastProvider = ''A'', LastDuration = 7\<rparr> ''B'' 9 None)
     = Some (GoError ''timeout'') \<and>
   LastError (RecordAttempt
      \<lparr>MaxRetryPerProvider = 3, RetryWaitDuration = 0, TotalAttempts = 4,
       LastError = Some (GoError ''timeout''), LastProvider = ''A'', LastDuration = 7\<rparr> ''B'' 9
       (Some (GoError ''refused''))) = Some (GoError ''refused'')"
  using RecordAttempt_frame [where rc = "\<lparr>MaxRetryPerProvider = 3, RetryWaitDuration = 0, TotalAttempts = 4,
       LastError = Some (GoError ''timeout''), LastProvider = ''A'', LastDuration = 7\<rparr>"
       and provider = "''B''" and duration = 9 and err = None]
    RecordAttempt_frame [where rc = "\<lparr>MaxRetryPerProvider = 3, RetryWaitDuration = 0, TotalAttempts = 4,
       LastError = Some (GoError ''timeout''), LastProvider = ''A'', LastDuration = 7\<rparr>"
       and provider = "''B''" and duration = 9 and err = "Some (GoError ''refused'')"]
  by simp

subsection \<open>Failure response\<close>



subsection \<open>Round-robin reordering\<close>

text \<open>The key of a platform and a level, as \<^verbatim>\<open>Sprintf\<close> writes it.\<close>

lemma state_key_example:
  "state_key ''claude'' 1 = ''claude:1'' \<and> state_key ''custom:x'' 12 = ''custom:x:12'' \<and>
   format_int (- 305) = ''-305''"
  by code_simp

text \<open>The search loop finds the first provider with the name, if there is one.\<close>

lemma find_lastIdx_Some:
  "find_lastIdx g s ps = Some i \<Longrightarrow> i < length ps \<and> g (ps ! i) = s \<and> (\<forall>j<i. g (ps ! j) \<noteq> s)"
proof (induction ps arbitrary: i)
  case Nil
  then show ?case by simp
next
  case (Cons p ps)
  show ?case
  proof (cases "g p = s")
    case True
    with Cons.prems show ?thesis by simp
  next
    case False
    with Cons.prems obtain k where k: "find_lastIdx g s ps = Some k" "i = Suc k"
      by auto
    from Cons.IH [OF k(1)] False k(2) show ?thesis
      by (auto simp: nth_Cons split: nat.splits)
  qed
qed

lemma find_lastIdx_None: "find_lastIdx g s ps = None \<longleftrightarrow> s \<notin> g ` set ps"
  by (induction ps) auto

lemma find_lastIdx_first:
  "i < length ps \<Longrightarrow> g (ps ! i) = s \<Longrightarrow> (\<forall>j<i. g (ps ! j) \<noteq> s) \<Longrightarrow> find_lastIdx g s ps = Some i"
proof -
  assume a: "i < length ps" "g (ps ! i) = s" "\<forall>j<i. g (ps ! j) \<noteq> s"
  then have "s \<in> g ` set ps" by (metis imageI nth_mem)
  then obtain k where k: "find_lastIdx g s ps = Some k"
    using find_lastIdx_None [of g s ps] by (cases "find_lastIdx g s ps") auto
  from find_lastIdx_Some [OF k] a have "k = i"
    by (metis linorder_neqE_nat)
  with k show ?thesis by simp
qed

text \<open>The result built by the copy loop is the input rotated to the left.\<close>

lemma round_robin_is_rotate:
  "map (\<lambda>k. ps ! ((i + 1 + k) mod length ps)) [0..<length ps] = rotate (i + 1) ps"
proof (rule nth_equalityI)
  show "length (map (\<lambda>k. ps ! ((i + 1 + k) mod length ps)) [0..<length ps]) = length (rotate (i + 1) ps)"
    by simp
next
  fix k
  assume "k < length (map (\<lambda>k. ps ! ((i + 1 + k) mod length ps)) [0..<length ps])"
  then have k: "k < length ps" by simp
  then show "map (\<lambda>k. ps ! ((i + 1 + k) mod length ps)) [0..<length ps] ! k = rotate (i + 1) ps ! k"
    by (simp only: nth_rotate nth_map length_upt nth_upt add_0 minus_nat.diff_0)
qed

lemma mset_rotate_eq: "mset (rotate n xs) = mset xs"
proof -
  have "mset (take (n mod length xs) xs) + mset (drop (n mod length xs) xs) = mset xs"
    by (metis append_take_drop_id mset_append)
  then show ?thesis
    by (simp add: rotate_drop_take add.commute)
qed

text \<open>The three outcomes of a call.\<close>

lemma Reorder_short:
  "length ps \<le> 1 \<Longrightarrow> Reorder rrs pl lv ps g = (ps, rrs)"
  by (simp add: Reorder_def)

lemma Reorder_restart:
  assumes "2 \<le> length ps"
    and "map_index (lastStart rrs) (state_key pl lv) = [] \<or>
         map_index (lastStart rrs) (state_key pl lv) \<notin> g ` set ps"
  shows "Reorder rrs pl lv ps g =
     (ps, rrs\<lparr>lastStart := (lastStart rrs)(state_key pl lv \<mapsto> g (ps ! 0))\<rparr>)"
proof (cases "map_index (lastStart rrs) (state_key pl lv) = []")
  case True
  with assms(1) show ?thesis by (simp add: Reorder_def Let_def)
next
  case False
  with assms(2) have "find_lastIdx g (map_index (lastStart rrs) (state_key pl lv)) ps = None"
    by (simp add: find_lastIdx_None)
  with assms(1) False show ?thesis by (simp add: Reorder_def Let_def)
qed

lemma Reorder_rotate:
  assumes "2 \<le> length ps"
    and "map_index (lastStart rrs) (state_key pl lv) \<noteq> []"
    and "find_lastIdx g (map_index (lastStart rrs) (state_key pl lv)) ps = Some i"
  shows "Reorder rrs pl lv ps g =
     (rotate (i + 1) ps,
      rrs\<lparr>lastStart := (lastStart rrs)(state_key pl lv \<mapsto> g (ps ! ((i + 1) mod length ps)))\<rparr>)"
proof -
  have n: "0 < length ps" using assms(1) by linarith
  have first: "rotate (i + 1) ps ! 0 = ps ! ((i + 1) mod length ps)"
    using nth_rotate [OF n, of "i + 1"] by simp
  have "Reorder rrs pl lv ps g =
     (map (\<lambda>k. ps ! ((i + 1 + k) mod length ps)) [0..<length ps],
      rrs\<lparr>lastStart := (lastStart rrs)(state_key pl lv \<mapsto>
         g (map (\<lambda>k. ps ! ((i + 1 + k) mod length ps)) [0..<length ps] ! 0))\<rparr>)"
    using assms by (simp add: Reorder_def Let_def)
  then show ?thesis
    by (simp only: round_robin_is_rotate first)
qed

lemma Reorder_result_cases:
  assumes "2 \<le> length ps"
  shows "\<exists>m < length ps. Reorder rrs pl lv ps g =
     (rotate m ps, rrs\<lparr>lastStart := (lastStart rrs)(state_key pl lv \<mapsto> g (ps ! m))\<rparr>)"
proof (cases "map_index (lastStart rrs) (state_key pl lv) = [] \<or>
         map_index (lastStart rrs) (state_key pl lv) \<notin> g ` set ps")
  case True
  have "0 < length ps" using assms by linarith
  with Reorder_restart [OF assms True] show ?thesis
    by (intro exI [of _ 0]) simp
next
  case False
  then obtain i where i: "find_lastIdx g (map_index (lastStart rrs) (state_key pl lv)) ps = Some i"
    using find_lastIdx_None [of g "map_index (lastStart rrs) (state_key pl lv)" ps] by auto
  have "0 < length ps" using assms by linarith
  then have lt: "(i + 1) mod length ps < length ps" by simp
  have "rotate (i + 1) ps = rotate ((i + 1) mod length ps) ps"
    by (rule rotate_conv_mod)
  with Reorder_rotate [OF assms _ i] False lt show ?thesis
    by (intro exI [of _ "(i + 1) mod length ps"]) simp
qed

text \<open>
  Claim C2. For every provider list, platform, level and round-robin state the list
  returned by \<open>Reorder\<close> is a permutation of the input: the same elements with the same
  multiplicities, hence the same length, nothing duplicated and nothing dropped.
\<close>

theorem Reorder_permutation:
  "mset (fst (Reorder rrs platform level providers getName)) = mset providers \<and>
   length (fst (Reorder rrs platform level providers getName)) = length providers \<and>
   set (fst (Reorder rrs platform level providers getName)) = set providers"
proof (cases "length providers \<le> 1")
  case True
  then show ?thesis by (simp add: Reorder_short)
next
  case False
  then have "2 \<le> length providers" by simp
  from Reorder_result_cases [OF this, of rrs platform level getName]
  show ?thesis by (auto simp: mset_rotate_eq)
qed

text \<open>
  Claim C1, as stated: for every non-empty list a call with no stored name records the
  name of the first provider. A list of one provider is returned before the state is
  touched, and nothing is recorded.
\<close>

theorem Reorder_single_records_nothing_counterexample:
  "Reorder NewRoundRobinState ''claude'' 1 [''A''] (\<lambda>name. name) = ([''A''], NewRoundRobinState) \<and>
   map_index (lastStart (snd (Reorder NewRoundRobinState ''claude'' 1 [''A''] (\<lambda>name. name))))
     (state_key ''claude'' 1) \<noteq> ''A''"
  by (simp add: Reorder_def NewRoundRobinState_def map_index_def)

lemma Reorder_ABC:
  assumes "getName a \<noteq> []" "getName b \<noteq> []" "getName c \<noteq> []"
    and "getName a \<noteq> getName b" "getName a \<noteq> getName c" "getName b \<noteq> getName c"
  shows "Reorder rrs platform level [a, b, c] getName =
     (if map_index (lastStart rrs) (state_key platform level) = getName a then
        ([b, c, a], rrs\<lparr>lastStart := (lastStart rrs)(state_key platform level \<mapsto> getName b)\<rparr>)
      else if map_index (lastStart rrs) (state_key platform level) = getName b then
        ([c, a, b], rrs\<lparr>lastStart := (lastStart rrs)(state_key platform level \<mapsto> getName c)\<rparr>)
      else
        ([a, b, c], rrs\<lparr>lastStart := (lastStart rrs)(state_key platform level \<mapsto> getName a)\<rparr>))"
proof -
  have u: "[0..<length [a, b, c]] = [0, 1, 2]"
    by (simp add: upt_rec)
  show ?thesis
    using assms unfolding Reorder_def Let_def u by auto
qed

text \<open>
  Claim C1, amended. A list of at most one provider is returned as it is and the state
  is not changed. For a list of at least two providers: with no stored name for the key,
  \<open>Reorder\<close> returns the input order and records the name of the first provider; when the
  stored name is not empty and \<open>i\<close> is the first index at which it occurs in the list of
  length \<open>n\<close>, \<open>Reorder\<close> returns \<open>providers[(i+1) mod n], \<dots>, providers[i]\<close> and
  records the name of the new first element. So for three providers with distinct
  non-empty names, four calls from the empty state return \<open>[a,b,c]\<close>, \<open>[b,c,a]\<close>,
  \<open>[c,a,b]\<close>, \<open>[a,b,c]\<close>.
\<close>

theorem Reorder_round_robin:
  "(length providers \<le> 1 \<longrightarrow> Reorder rrs platform level providers getName = (providers, rrs)) \<and>
   (2 \<le> length providers \<and> map_index (lastStart rrs) (state_key platform level) = [] \<longrightarrow>
      Reorder rrs platform level providers getName =
        (providers,
         rrs\<lparr>lastStart := (lastStart rrs)(state_key platform level \<mapsto> getName (providers ! 0))\<rparr>)) \<and>
   (2 \<le> length providers \<and> map_index (lastStart rrs) (state_key platform level) \<noteq> [] \<and>
    i < length providers \<and>
    getName (providers ! i) = map_index (lastStart rrs) (state_key platform level) \<and>
    (\<forall>j<i. getName (providers ! j) \<noteq> map_index (lastStart rrs) (state_key platform level)) \<longrightarrow>
      Reorder rrs platform level providers getName =
        (map (\<lambda>k. providers ! ((i + 1 + k) mod length providers)) [0..<length providers],
         rrs\<lparr>lastStart := (lastStart rrs)(state_key platform level \<mapsto>
                getName (providers ! ((i + 1) mod length providers)))\<rparr>)) \<and>
   (getName a \<noteq> [] \<and> getName b \<noteq> [] \<and> getName c \<noteq> [] \<and>
    getName a \<noteq> getName b \<and> getName a \<noteq> getName c \<and> getName b \<noteq> getName c \<longrightarrow>
      (let r1 = Reorder NewRoundRobinState platform level [a, b, c] getName;
           r2 = Reorder (snd r1) platform level [a, b, c] getName;
           r3 = Reorder (snd r2) platform level [a, b, c] getName;
           r4 = Reorder (snd r3) platform level [a, b, c] getName
       in fst r1 = [a, b, c] \<and> map_index (lastStart (snd r1)) (state_key platform level) = getName a \<and>
          fst r2 = [b, c, a] \<and> map_index (lastStart (snd r2)) (state_key platform level) = getName b \<and>
          fst r3 = [c, a, b] \<and> map_index (lastStart (snd r3)) (state_key platform level) = getName c \<and>
          fst r4 = [a, b, c]))"
proof (intro conjI impI)
  assume "length providers \<le> 1"
  then show "Reorder rrs platform level providers getName = (providers, rrs)"
    by (rule Reorder_short)
next
  assume "2 \<le> length providers \<and> map_index (lastStart rrs) (state_key platform level) = []"
  then show "Reorder rrs platform level providers getName =
        (providers,
         rrs\<lparr>lastStart := (lastStart rrs)(state_key platform level \<mapsto> getName (providers ! 0))\<rparr>)"
    by (simp add: Reorder_restart)
next
  assume a: "2 \<le> length providers \<and> map_index (lastStart rrs) (state_key platform level) \<noteq> [] \<and>
    i < length providers \<and>
    getName (providers ! i) = map_index (lastStart rrs) (state_key platform level) \<and>
    (\<forall>j<i. getName (providers ! j) \<noteq> map_index (lastStart rrs) (state_key platform level))"
  then have "find_lastIdx getName (map_index (lastStart rrs) (state_key platform level)) providers = Some i"
    by (intro find_lastIdx_first) simp_all
  with a have "Reorder rrs platform level providers getName =
     (rotate (i + 1) providers,
      rrs\<lparr>lastStart := (lastStart rrs)(state_key platform level \<mapsto>
            getName (providers ! ((i + 1) mod length providers)))\<rparr>)"
    by (intro Reorder_rotate) simp_all
  then show "Reorder rrs platform level providers getName =
        (map (\<lambda>k. providers ! ((i + 1 + k) mod length providers)) [0..<length providers],
         rrs\<lparr>lastStart := (lastStart rrs)(state_key platform level \<mapsto>
                getName (providers ! ((i + 1) mod length providers)))\<rparr>)"
    by (simp only: round_robin_is_rotate)
next
  assume n: "getName a \<noteq> [] \<and> getName b \<noteq> [] \<and> getName c \<noteq> [] \<and>
    getName a \<noteq> getName b \<and> getName a \<noteq> getName c \<and> getName b \<noteq> getName c"
  then have R: "\<And>s. Reorder s platform level [a, b, c] getName =
     (if map_index (lastStart s) (state_key platform level) = getName a then
        ([b, c, a], s\<lparr>lastStart := (lastStart s)(state_key platform level \<mapsto> getName b)\<rparr>)
      else if map_index (lastStart s) (state_key platform level) = getName b then
        ([c, a, b], s\<lparr>lastStart := (lastStart s)(state_key platform level \<mapsto> getName c)\<rparr>)
      else
        ([a, b, c], s\<lparr>lastStart := (lastStart s)(state_key platform level \<mapsto> getName a)\<rparr>))"
    by (intro Reorder_ABC) simp_all
  let ?k = "state_key platform level"
  define s1 where "s1 = NewRoundRobinState\<lparr>lastStart := (lastStart NewRoundRobinState)(?k \<mapsto> getName a)\<rparr>"
  define s2 where "s2 = s1\<lparr>lastStart := (lastStart s1)(?k \<mapsto> getName b)\<rparr>"
  define s3 where "s3 = s2\<lparr>lastStart := (lastStart s2)(?k \<mapsto> getName c)\<rparr>"
  define s4 where "s4 = s3\<lparr>lastStart := (lastStart s3)(?k \<mapsto> getName a)\<rparr>"
  have m0: "map_index (lastStart NewRoundRobinState) ?k = []"
    by (simp add: NewRoundRobinState_def map_index_def)
  have m1: "map_index (lastStart s1) ?k = getName a"
    by (simp add: s1_def map_index_def)
  have m2: "map_index (lastStart s2) ?k = getName b"
    by (simp add: s2_def map_index_def)
  have m3: "map_index (lastStart s3) ?k = getName c"
    by (simp add: s3_def map_index_def)
  have r1: "Reorder NewRoundRobinState platform level [a, b, c] getName = ([a, b, c], s1)"
    using n by (auto simp: R m0 s1_def)
  have r2: "Reorder s1 platform level [a, b, c] getName = ([b, c, a], s2)"
    by (simp add: R m1 s2_def)
  have r3: "Reorder s2 platform level [a, b, c] getName = ([c, a, b], s3)"
    using n by (auto simp: R m2 s3_def)
  have r4: "Reorder s3 platform level [a, b, c] getName = ([a, b, c], s4)"
    using n by (auto simp: R m3 s4_def)
  show "let r1 = Reorder NewRoundRobinState platform level [a, b, c] getName;
           r2 = Reorder (snd r1) platform level [a, b, c] getName;
           r3 = Reorder (snd r2) platform level [a, b, c] getName;
           r4 = Reorder (snd r3) platform level [a, b, c] getName
       in fst r1 = [a, b, c] \<and> map_index (lastStart (snd r1)) (state_key platform level) = getName a \<and>
          fst r2 = [b, c, a] \<and> map_index (lastStart (snd r2)) (state_key platform level) = getName b \<and>
          fst r3 = [c, a, b] \<and> map_index (lastStart (snd r3)) (state_key platform level) = getName c \<and>
          fst r4 = [a, b, c]"
    by (simp only: Let_def r1 r2 r3 r4 fst_conv snd_conv m1 m2 m3 simp_thms)
qed

theorem Reorder_round_robin_witness:
  "Reorder \<lparr>lastStart = [state_key ''claude'' 1 \<mapsto> ''B'']\<rparr> ''claude'' 1 [''A'', ''B'', ''C''] (\<lambda>name. name) =
     ([''C'', ''A'', ''B''], \<lparr>lastStart = [state_key ''claude'' 1 \<mapsto> ''C'']\<rparr>) \<and>
   Reorder \<lparr>lastStart = [state_key ''claude'' 1 \<mapsto> ''B'']\<rparr> ''claude'' 1 [''A''] (\<lambda>name. name) =
     ([''A''], \<lparr>lastStart = [state_key ''claude'' 1 \<mapsto> ''B'']\<rparr>) \<and>
   Reorder NewRoundRobinState ''claude'' 1 [''A'', ''B'', ''C''] (\<lambda>name. name) =
     ([''A'', ''B'', ''C''], \<lparr>lastStart = [state_key ''claude'' 1 \<mapsto> ''A'']\<rparr>) \<and>
   fst (Reorder NewRoundRobinState ''claude'' 1 [''A'', ''B'', ''C''] (\<lambda>name. name)) = [''A'', ''B'', ''C''] \<and>
   fst (Reorder (snd (Reorder NewRoundRobinState ''claude'' 1 [''A'', ''B'', ''C''] (\<lambda>name. name)))
          ''claude'' 1 [''A'', ''B'', ''C''] (\<lambda>name. name)) = [''B'', ''C'', ''A'']"
proof -
  have u: "[0..<length [''A'', ''B'', ''C'']] = [0, 1, 2]"
    by (simp add: upt_rec)
  note t = Reorder_round_robin [where rrs = "\<lparr>lastStart = [state_key ''claude'' 1 \<mapsto> ''B'']\<rparr>"
      and platform = "''claude''" and level = 1 and providers = "[''A'', ''B'', ''C'']"
      and getName = "\<lambda>name. name" and i = 1 and a = "''A''" and b = "''B''" and c = "''C''"]
  have h: "2 \<le> length [''A'', ''B'', ''C''] \<and>
      map_index (lastStart \<lparr>lastStart = [state_key ''claude'' 1 \<mapsto> ''B'']\<rparr>) (state_key ''claude'' 1) \<noteq> [] \<and>
      1 < length [''A'', ''B'', ''C''] \<and>
      [''A'', ''B'', ''C''] ! 1 = map_index (lastStart \<lparr>lastStart = [state_key ''claude'' 1 \<mapsto> ''B'']\<rparr>) (state_key ''claude'' 1) \<and>
      (\<forall>j<1. [''A'', ''B'', ''C''] ! j \<noteq> map_index (lastStart \<lparr>lastStart = [state_key ''claude'' 1 \<mapsto> ''B'']\<rparr>) (state_key ''claude'' 1))"
    by (simp add: map_index_def)
  from t h have one: "Reorder \<lparr>lastStart = [state_key ''claude'' 1 \<mapsto> ''B'']\<rparr> ''claude'' 1 [''A'', ''B'', ''C''] (\<lambda>name. name) =
     ([''C'', ''A'', ''B''], \<lparr>lastStart = [state_key ''claude'' 1 \<mapsto> ''C'']\<rparr>)"
    unfolding u by simp
  from t have two: "fst (Reorder NewRoundRobinState ''claude'' 1 [''A'', ''B'', ''C''] (\<lambda>name. name)) = [''A'', ''B'', ''C''] \<and>
   fst (Reorder (snd (Reorder NewRoundRobinState ''claude'' 1 [''A'', ''B'', ''C''] (\<lambda>name. name)))
          ''claude'' 1 [''A'', ''B'', ''C''] (\<lambda>name. name)) = [''B'', ''C'', ''A'']"
    by (simp add: Let_def)
  have short: "Reorder \<lparr>lastStart = [state_key ''claude'' 1 \<mapsto> ''B'']\<rparr> ''claude'' 1 [''A''] (\<lambda>name. name) =
     ([''A''], \<lparr>lastStart = [state_key ''claude'' 1 \<mapsto> ''B'']\<rparr>)"
    using Reorder_round_robin [where rrs = "\<lparr>lastStart = [state_key ''claude'' 1 \<mapsto> ''B'']\<rparr>"
      and platform = "''claude''" and level = 1 and providers = "[''A'']" and getName = "\<lambda>name. name"]
    by simp
  have fresh: "Reorder NewRoundRobinState ''claude'' 1 [''A'', ''B'', ''C''] (\<lambda>name. name) =
     ([''A'', ''B'', ''C''], \<lparr>lastStart = [state_key ''claude'' 1 \<mapsto> ''A'']\<rparr>)"
    using Reorder_round_robin [where rrs = NewRoundRobinState
      and platform = "''claude''" and level = 1 and providers = "[''A'', ''B'', ''C'']"
      and getName = "\<lambda>name. name"]
    by (simp add: NewRoundRobinState_def map_index_def)
  from one short fresh two show ?thesis by blast
qed

text \<open>
  Claim C7, as stated: for every list of at least two providers two successive calls put
  different providers first. The empty name is what \<open>Reorder\<close> reads as "no history":
  when the first provider has the empty name, both calls return the input order.
\<close>

theorem Reorder_empty_name_counterexample:
  "hd (fst (Reorder NewRoundRobinState ''claude'' 1
        [\<lparr>Name = [], APIURL = ''u'', APIKey = ''k'', Enabled = True, Level = 1\<rparr>,
         \<lparr>Name = ''B'', APIURL = ''u'', APIKey = ''k'', Enabled = True, Level = 1\<rparr>] GetName)) =
   hd (fst (Reorder (snd (Reorder NewRoundRobinState ''claude'' 1
        [\<lparr>Name = [], APIURL = ''u'', APIKey = ''k'', Enabled = True, Level = 1\<rparr>,
         \<lparr>Name = ''B'', APIURL = ''u'', APIKey = ''k'', Enabled = True, Level = 1\<rparr>] GetName)) ''claude'' 1
        [\<lparr>Name = [], APIURL = ''u'', APIKey = ''k'', Enabled = True, Level = 1\<rparr>,
         \<lparr>Name = ''B'', APIURL = ''u'', APIKey = ''k'', Enabled = True, Level = 1\<rparr>] GetName))"
  by (simp add: Reorder_def NewRoundRobinState_def map_index_def GetName_def Let_def)

lemma distinct_names_nth:
  assumes "distinct (map g ps)" "i < length ps" "j < length ps" "i \<noteq> j"
  shows "g (ps ! i) \<noteq> g (ps ! j)"
proof -
  have "i < length (map g ps)" "j < length (map g ps)"
    using assms(2,3) by simp_all
  with assms(1,4) have "map g ps ! i \<noteq> map g ps ! j"
    by (simp only: nth_eq_iff_index_eq not_False_eq_True)
  with assms(2,3) show ?thesis by simp
qed

lemma succ_mod_neq:
  assumes "2 \<le> n" "m < n"
  shows "(m + 1) mod n \<noteq> (m::nat)"
proof (cases "m + 1 = n")
  case True
  then show ?thesis using assms by simp
next
  case False
  with assms have "m + 1 < n" by simp
  then show ?thesis by simp
qed

text \<open>
  Claim C7, amended. For every list of at least two providers whose names are pairwise
  distinct and whose first provider has a non-empty name, and for every state, two
  successive calls of \<open>Reorder\<close> with the same arguments return lists whose first
  elements differ.
\<close>

theorem Reorder_advances:
  assumes "2 \<le> length providers"
    and "distinct (map getName providers)"
    and "getName (providers ! 0) \<noteq> []"
  shows "hd (fst (Reorder rrs platform level providers getName)) \<noteq>
         hd (fst (Reorder (snd (Reorder rrs platform level providers getName))
                    platform level providers getName))"
proof -
  let ?k = "state_key platform level"
  have n: "0 < length providers" and ne: "providers \<noteq> []"
    using assms(1) by auto
  obtain m where m: "m < length providers"
    and r1: "Reorder rrs platform level providers getName =
       (rotate m providers, rrs\<lparr>lastStart := (lastStart rrs)(?k \<mapsto> getName (providers ! m))\<rparr>)"
    using Reorder_result_cases [OF assms(1), of rrs platform level getName] by blast
  define s1 where "s1 = rrs\<lparr>lastStart := (lastStart rrs)(?k \<mapsto> getName (providers ! m))\<rparr>"
  have look: "map_index (lastStart s1) ?k = getName (providers ! m)"
    by (simp add: s1_def map_index_def)
  have hd1: "hd (fst (Reorder rrs platform level providers getName)) = providers ! m"
    using m ne by (simp add: r1 hd_rotate_conv_nth)
  have snd1: "snd (Reorder rrs platform level providers getName) = s1"
    by (simp add: r1 s1_def)
  have hd2: "hd (fst (Reorder s1 platform level providers getName)) \<noteq> providers ! m"
  proof (cases "getName (providers ! m) = []")
    case True
    with assms(3) have "m \<noteq> 0" by (cases m) auto
    have "Reorder s1 platform level providers getName =
        (providers, s1\<lparr>lastStart := (lastStart s1)(?k \<mapsto> getName (providers ! 0))\<rparr>)"
      using True look by (intro Reorder_restart [OF assms(1)]) simp
    then have "hd (fst (Reorder s1 platform level providers getName)) = providers ! 0"
      using ne by (simp add: hd_conv_nth)
    moreover have "getName (providers ! 0) \<noteq> getName (providers ! m)"
      using True assms(3) by simp
    ultimately show ?thesis by auto
  next
    case False
    have "\<forall>j<m. getName (providers ! j) \<noteq> getName (providers ! m)"
      using distinct_names_nth [OF assms(2) _ m] m by auto
    then have f: "find_lastIdx getName (map_index (lastStart s1) ?k) providers = Some m"
      unfolding look using m by (intro find_lastIdx_first) simp_all
    have "Reorder s1 platform level providers getName =
       (rotate (m + 1) providers,
        s1\<lparr>lastStart := (lastStart s1)(?k \<mapsto> getName (providers ! ((m + 1) mod length providers)))\<rparr>)"
      using False look f by (intro Reorder_rotate [OF assms(1)]) simp_all
    then have h: "hd (fst (Reorder s1 platform level providers getName)) =
        providers ! ((m + 1) mod length providers)"
      using hd_rotate_conv_nth [OF ne, of "m + 1"] by (simp only: fst_conv)
    have lt: "(m + 1) mod length providers < length providers"
      using n by simp
    have "getName (providers ! ((m + 1) mod length providers)) \<noteq> getName (providers ! m)"
      using distinct_names_nth [OF assms(2) lt m] succ_mod_neq [OF assms(1) m] by blast
    with h show ?thesis by auto
  qed
  show ?thesis
    unfolding snd1 hd1 using hd2 by simp
qed

theorem Reorder_advances_witness:
  "2 \<le> length [''A'', ''B''] \<and> distinct (map (\<lambda>name. name) [''A'', ''B'']) \<and>
   (\<lambda>name. name) ([''A'', ''B''] ! 0) \<noteq> [] \<and>
   hd (fst (Reorder NewRoundRobinState ''claude'' 1 [''A'', ''B''] (\<lambda>name. name))) \<noteq>
   hd (fst (Reorder (snd (Reorder NewRoundRobinState ''claude'' 1 [''A'', ''B''] (\<lambda>name. name)))
              ''claude'' 1 [''A'', ''B''] (\<lambda>name. name)))"
proof -
  have h1: "2 \<le> length [''A'', ''B'']" by simp
  have h2: "distinct (map (\<lambda>name. name) [''A'', ''B''])" by simp
  have h3: "(\<lambda>name. name) ([''A'', ''B''] ! 0) \<noteq> []" by simp
  from Reorder_advances [OF h1 h2 h3, of NewRoundRobinState "''claude''" 1] h1 h2 h3
  show ?thesis by blast
qed

subsection \<open>Repair of incomplete tool use\<close>

text \<open>The backward loop returns the last assistant message, and only that.\<close>

lemma find_lastAssistantIdx_Some:
  "find_lastAssistantIdx t msgs n = Some i \<Longrightarrow>
     i < n \<and> String t (Get (msgs ! i) ''role'') = ''assistant'' \<and>
     (\<forall>j. i < j \<and> j < n \<longrightarrow> String t (Get (msgs ! j) ''role'') \<noteq> ''assistant'')"
proof (induction n)
  case 0
  then show ?case by simp
next
  case (Suc n)
  show ?case
  proof (cases "String t (Get (msgs ! n) ''role'') = ''assistant''")
    case True
    with Suc.prems have "i = n" by simp
    with True show ?thesis by auto
  next
    case False
    with Suc.prems have "find_lastAssistantIdx t msgs n = Some i" by simp
    from Suc.IH [OF this] False show ?thesis
      by (auto simp: less_Suc_eq)
  qed
qed

lemma find_lastAssistantIdx_last:
  "i < n \<Longrightarrow> String t (Get (msgs ! i) ''role'') = ''assistant'' \<Longrightarrow>
   (\<forall>j. i < j \<and> j < n \<longrightarrow> String t (Get (msgs ! j) ''role'') \<noteq> ''assistant'') \<Longrightarrow>
   find_lastAssistantIdx t msgs n = Some i"
proof (induction n)
  case 0
  then show ?case by simp
next
  case (Suc n)
  show ?case
  proof (cases "i = n")
    case True
    with Suc.prems(2) show ?thesis by simp
  next
    case False
    with Suc.prems(1) have lt: "i < n" by simp
    with Suc.prems(3) have "String t (Get (msgs ! n) ''role'') \<noteq> ''assistant''" by simp
    moreover have "find_lastAssistantIdx t msgs n = Some i"
      using Suc.prems(2,3) lt by (intro Suc.IH) auto
    ultimately show ?thesis by simp
  qed
qed

text \<open>The two \<^verbatim>\<open>ForEach\<close> loops as a filter and as an existence test.\<close>

lemma collect_toolUseIDs_filter:
  "collect_toolUseIDs t items =
     filter (\<lambda>s. s \<noteq> []) (map (\<lambda>item. String t (Get item ''id''))
       (filter (\<lambda>item. String t (Get item ''type'') = ''tool_use'') items))"
  by (induction items) (simp_all add: Let_def)

lemma hasToolResult_iff:
  "hasToolResult t msgs i \<longleftrightarrow>
     (i + 1 < length msgs \<and> String t (Get (msgs ! (i + 1)) ''role'') = ''user'' \<and>
      (\<exists>c. Get (msgs ! (i + 1)) ''content'' = Some (JArray c) \<and>
           (\<exists>item \<in> set c. String t (Get item ''type'') = ''tool_result'')))"
  by (auto simp: hasToolResult_def Let_def list_ex_iff split: option.splits json.splits)

text \<open>Setting the element just past the end of the first \<open>key\<close> member appends to that
  array and leaves every other member where it is.\<close>

lemma set_element_append: "set_element xs (length xs) v = xs @ [v]"
  by (simp add: set_element_def)

lemma set_member_element_append:
  "map_of members key = Some (JArray xs) \<Longrightarrow>
   \<exists>pre post. members = pre @ (key, JArray xs) # post \<and> key \<notin> fst ` set pre \<and>
     set_member_element key (length xs) v members = Some (pre @ (key, JArray (xs @ [v])) # post)"
proof (induction members)
  case Nil
  then show ?case by simp
next
  case (Cons kx members)
  obtain k x where kx: "kx = (k, x)" by (cases kx)
  show ?case
  proof (cases "k = key")
    case True
    with Cons.prems kx have "x = JArray xs" by simp
    with True kx show ?thesis
      by (intro exI [of _ "[]"] exI [of _ members]) (simp add: set_element_append)
  next
    case False
    with Cons.prems kx have "map_of members key = Some (JArray xs)" by simp
    from Cons.IH [OF this] obtain pre post where
      p: "members = pre @ (key, JArray xs) # post" "key \<notin> fst ` set pre"
        "set_member_element key (length xs) v members = Some (pre @ (key, JArray (xs @ [v])) # post)"
      by blast
    with False kx show ?thesis
      by (intro exI [of _ "(k, x) # pre"] exI [of _ post]) simp
  qed
qed

lemma Get_first_member:
  "key \<notin> fst ` set pre \<Longrightarrow> Get (JObject (pre @ (key, v) # post)) key = Some v"
  by (induction pre) auto

lemma Get_Some_object: "Get body key = Some v \<Longrightarrow> \<exists>members. body = JObject members"
  by (cases body) simp_all

lemma SetBytes_append:
  assumes "Get body key = Some (JArray xs)"
  shows "\<exists>pre post. body = JObject (pre @ (key, JArray xs) # post) \<and> key \<notin> fst ` set pre \<and>
     SetBytes body key (length xs) v = Inr (JObject (pre @ (key, JArray (xs @ [v])) # post))"
proof -
  from Get_Some_object [OF assms] obtain members where b: "body = JObject members" by blast
  with assms have "map_of members key = Some (JArray xs)" by simp
  from set_member_element_append [OF this, of v] obtain pre post where
    p: "members = pre @ (key, JArray xs) # post" "key \<notin> fst ` set pre"
      "set_member_element key (length xs) v members = Some (pre @ (key, JArray (xs @ [v])) # post)"
    by blast
  have "SetBytes body key (length xs) v = Inr (JObject (pre @ (key, JArray (xs @ [v])) # post))"
    by (simp add: SetBytes_def b p(3))
  with b p(1,2) show ?thesis by blast
qed

text \<open>Every call either gives the body back or appends one message built from a
  non-empty list of ids.\<close>

lemma FixIncompleteToolUse_cases:
  "FixIncompleteToolUse t body = (body, False, None) \<or>
   (\<exists>msgs i items. Get body ''messages'' = Some (JArray msgs) \<and>
      find_lastAssistantIdx t msgs (length msgs) = Some i \<and>
      Get (msgs ! i) ''content'' = Some (JArray items) \<and>
      collect_toolUseIDs t items \<noteq> [] \<and> \<not> hasToolResult t msgs i \<and>
      FixIncompleteToolUse t body =
        (case SetBytes body ''messages'' (length msgs) (newUserMsg (collect_toolUseIDs t items)) of
           Inl err \<Rightarrow> (body, False, Some (GoError (repair_failed_prefix @ err)))
         | Inr modified \<Rightarrow> (modified, True, None)))"
  unfolding FixIncompleteToolUse_def Let_def
  by (simp split: option.split json.split)

lemma FixIncompleteToolUse_no_error:
  "snd (snd (FixIncompleteToolUse text_of body)) = None"
proof -
  from FixIncompleteToolUse_cases [of text_of body]
  consider (same) "FixIncompleteToolUse text_of body = (body, False, None)"
    | (set) msgs ids where "Get body ''messages'' = Some (JArray msgs)"
        "FixIncompleteToolUse text_of body =
          (case SetBytes body ''messages'' (length msgs) (newUserMsg ids) of
             Inl err \<Rightarrow> (body, False, Some (GoError (repair_failed_prefix @ err)))
           | Inr modified \<Rightarrow> (modified, True, None))"
    by blast
  then show ?thesis
  proof cases
    case same
    then show ?thesis by simp
  next
    case set
    from SetBytes_append [OF set(1), of "newUserMsg ids"] set(2) show ?thesis by auto
  qed
qed

lemmas repair_eval = FixIncompleteToolUse_def hasToolResult_def SetBytes_def set_element_def
  newUserMsg_def toolResult_def Let_def

text \<open>
  Claim C3. Let the body have a \<^verbatim>\<open>messages\<close> array whose last assistant message, at
  index \<open>i\<close>, has an array content with \<^verbatim>\<open>tool_use\<close> items; \<open>ids\<close> are their non-empty
  ids in order, and there is at least one. If the message at \<open>i + 1\<close> exists, has the
  role \<^verbatim>\<open>user\<close>, has an array content and one of its items has the type
  \<^verbatim>\<open>tool_result\<close>, then \<open>FixIncompleteToolUse\<close> returns the body unchanged with
  \<open>repaired = False\<close>. Otherwise it returns \<open>repaired = True\<close> and a body whose
  \<^verbatim>\<open>messages\<close> array is the old one with one message appended at the end: role
  \<^verbatim>\<open>user\<close>, and as content, for each id in order, an object with type
  \<^verbatim>\<open>tool_result\<close>, that \<^verbatim>\<open>tool_use_id\<close>, the error text and \<^verbatim>\<open>is_error\<close> true.
\<close>

theorem FixIncompleteToolUse_repairs_when_needed:
  assumes "Get body ''messages'' = Some (JArray msgs)"
    and "i < length msgs"
    and "String text_of (Get (msgs ! i) ''role'') = ''assistant''"
    and "\<forall>j. i < j \<and> j < length msgs \<longrightarrow> String text_of (Get (msgs ! j) ''role'') \<noteq> ''assistant''"
    and "Get (msgs ! i) ''content'' = Some (JArray items)"
    and "ids = filter (\<lambda>s. s \<noteq> []) (map (\<lambda>item. String text_of (Get item ''id''))
                 (filter (\<lambda>item. String text_of (Get item ''type'') = ''tool_use'') items))"
    and "ids \<noteq> []"
  shows "if i + 1 < length msgs \<and> String text_of (Get (msgs ! (i + 1)) ''role'') = ''user'' \<and>
            (\<exists>c. Get (msgs ! (i + 1)) ''content'' = Some (JArray c) \<and>
                 (\<exists>item \<in> set c. String text_of (Get item ''type'') = ''tool_result''))
         then FixIncompleteToolUse text_of body = (body, False, None)
         else (\<exists>body'. FixIncompleteToolUse text_of body = (body', True, None) \<and>
                 Get body' ''messages'' = Some (JArray (msgs @
                   [JObject [(''content'', JArray (map (\<lambda>tool_id.
                       JObject [(''content'', JString interrupted_text), (''is_error'', JBool True),
                                (''tool_use_id'', JString tool_id), (''type'', JString ''tool_result'')]) ids)),
                     (''role'', JString ''user'')]])))"
  (is "if ?C then ?A else ?B")
proof -
  have n0: "msgs \<noteq> []" using assms(2) by auto
  have f: "find_lastAssistantIdx text_of msgs (length msgs) = Some i"
    using assms(2,3,4) by (rule find_lastAssistantIdx_last)
  have c: "collect_toolUseIDs text_of items = ids"
    by (simp only: collect_toolUseIDs_filter assms(6))
  have C: "?C \<longleftrightarrow> hasToolResult text_of msgs i"
    by (simp only: hasToolResult_iff)
  show ?thesis
  proof (cases "hasToolResult text_of msgs i")
    case True
    then have "FixIncompleteToolUse text_of body = (body, False, None)"
      by (simp add: FixIncompleteToolUse_def assms(1,5) n0 f c Let_def)
    with True C show ?thesis by (simp only: if_True)
  next
    case False
    from SetBytes_append [OF assms(1), of "newUserMsg ids"] obtain pre post where
      p: "body = JObject (pre @ (''messages'', JArray msgs) # post)" "''messages'' \<notin> fst ` set pre"
        "SetBytes body ''messages'' (length msgs) (newUserMsg ids) =
           Inr (JObject (pre @ (''messages'', JArray (msgs @ [newUserMsg ids])) # post))"
      by blast
    have r: "FixIncompleteToolUse text_of body =
        (JObject (pre @ (''messages'', JArray (msgs @ [newUserMsg ids])) # post), True, None)"
      using False assms(7) by (simp add: FixIncompleteToolUse_def assms(1,5) n0 f c Let_def p(3))
    have g: "Get (JObject (pre @ (''messages'', JArray (msgs @ [newUserMsg ids])) # post)) ''messages'' =
        Some (JArray (msgs @ [newUserMsg ids]))"
      using p(2) by (rule Get_first_member)
    have m: "newUserMsg ids = JObject [(''content'', JArray (map (\<lambda>tool_id.
                       JObject [(''content'', JString interrupted_text), (''is_error'', JBool True),
                                (''tool_use_id'', JString tool_id), (''type'', JString ''tool_result'')]) ids)),
                     (''role'', JString ''user'')]"
      by (simp add: newUserMsg_def toolResult_def)
    have "?B" using r g unfolding m by blast
    with False C show ?thesis by (simp only: if_False)
  qed
qed

theorem FixIncompleteToolUse_repairs_when_needed_witness:
  "(let u = JObject [(''role'', JString ''user''), (''content'', JString ''go'')];
        a = JObject [(''role'', JString ''assistant''),
                     (''content'', JArray [JObject [(''type'', JString ''text''), (''text'', JString ''ok'')],
                        JObject [(''type'', JString ''tool_use''), (''id'', JString ''T1'')],
                        JObject [(''type'', JString ''tool_use''), (''id'', JString ''T2'')]])]
    in \<exists>body'. FixIncompleteToolUse (\<lambda>v. []) (JObject [(''model'', JString ''m''), (''messages'', JArray [u, a])])
                  = (body', True, None) \<and>
          Get body' ''messages'' = Some (JArray [u, a,
            JObject [(''content'', JArray
               [JObject [(''content'', JString interrupted_text), (''is_error'', JBool True),
                         (''tool_use_id'', JString ''T1''), (''type'', JString ''tool_result'')],
                JObject [(''content'', JString interrupted_text), (''is_error'', JBool True),
                         (''tool_use_id'', JString ''T2''), (''type'', JString ''tool_result'')]]),
              (''role'', JString ''user'')]])) \<and>
   (let a = JObject [(''role'', JString ''assistant''),
                     (''content'', JArray [JObject [(''type'', JString ''tool_use''), (''id'', JString ''T1'')]])];
        r = JObject [(''role'', JString ''user''),
                     (''content'', JArray [JObject [(''type'', JString ''tool_result''),
                                                   (''tool_use_id'', JString ''T1'')]])]
    in FixIncompleteToolUse (\<lambda>v. []) (JObject [(''messages'', JArray [a, r])])
         = (JObject [(''messages'', JArray [a, r])], False, None))"
proof -
  define u where "u = JObject [(''role'', JString ''user''), (''content'', JString ''go'')]"
  define a where "a = JObject [(''role'', JString ''assistant''),
                     (''content'', JArray [JObject [(''type'', JString ''text''), (''text'', JString ''ok'')],
                        JObject [(''type'', JString ''tool_use''), (''id'', JString ''T1'')],
                        JObject [(''type'', JString ''tool_use''), (''id'', JString ''T2'')]])]"
  define a' where "a' = JObject [(''role'', JString ''assistant''),
                     (''content'', JArray [JObject [(''type'', JString ''tool_use''), (''id'', JString ''T1'')]])]"
  define r where "r = JObject [(''role'', JString ''user''),
                     (''content'', JArray [JObject [(''type'', JString ''tool_result''),
                                                   (''tool_use_id'', JString ''T1'')]])]"
  have one: "if 1 + 1 < length [u, a] \<and> String (\<lambda>v. []) (Get ([u, a] ! (1 + 1)) ''role'') = ''user'' \<and>
            (\<exists>c. Get ([u, a] ! (1 + 1)) ''content'' = Some (JArray c) \<and>
                 (\<exists>item \<in> set c. String (\<lambda>v. []) (Get item ''type'') = ''tool_result''))
         then FixIncompleteToolUse (\<lambda>v. []) (JObject [(''model'', JString ''m''), (''messages'', JArray [u, a])])
              = (JObject [(''model'', JString ''m''), (''messages'', JArray [u, a])], False, None)
         else (\<exists>body'. FixIncompleteToolUse (\<lambda>v. []) (JObject [(''model'', JString ''m''), (''messages'', JArray [u, a])])
                 = (body', True, None) \<and>
                 Get body' ''messages'' = Some (JArray ([u, a] @
                   [JObject [(''content'', JArray (map (\<lambda>tool_id.
                       JObject [(''content'', JString interrupted_text), (''is_error'', JBool True),
                                (''tool_use_id'', JString tool_id), (''type'', JString ''tool_result'')])
                       [''T1'', ''T2''])),
                     (''role'', JString ''user'')]])))"
    by (rule FixIncompleteToolUse_repairs_when_needed [where items = "[JObject [(''type'', JString ''text''), (''text'', JString ''ok'')],
                        JObject [(''type'', JString ''tool_use''), (''id'', JString ''T1'')],
                        JObject [(''type'', JString ''tool_use''), (''id'', JString ''T2'')]]"])
      (simp_all add: u_def a_def)
  have two: "if 0 + 1 < length [a', r] \<and> String (\<lambda>v. []) (Get ([a', r] ! (0 + 1)) ''role'') = ''user'' \<and>
            (\<exists>c. Get ([a', r] ! (0 + 1)) ''content'' = Some (JArray c) \<and>
                 (\<exists>item \<in> set c. String (\<lambda>v. []) (Get item ''type'') = ''tool_result''))
         then FixIncompleteToolUse (\<lambda>v. []) (JObject [(''messages'', JArray [a', r])])
              = (JObject [(''messages'', JArray [a', r])], False, None)
         else (\<exists>body'. FixIncompleteToolUse (\<lambda>v. []) (JObject [(''messages'', JArray [a', r])])
                 = (body', True, None) \<and>
                 Get body' ''messages'' = Some (JArray ([a', r] @
                   [JObject [(''content'', JArray (map (\<lambda>tool_id.
                       JObject [(''content'', JString interrupted_text), (''is_error'', JBool True),
                                (''tool_use_id'', JString tool_id), (''type'', JString ''tool_result'')])
                       [''T1''])),
                     (''role'', JString ''user'')]])))"
    by (rule FixIncompleteToolUse_repairs_when_needed [where items =
          "[JObject [(''type'', JString ''tool_use''), (''id'', JString ''T1'')]]"])
      (simp_all add: a'_def r_def)
  have c1: "\<not> (1 + 1 < length [u, a])" by simp
  have c2: "0 + 1 < length [a', r] \<and> String (\<lambda>v. []) (Get ([a', r] ! (0 + 1)) ''role'') = ''user'' \<and>
            (\<exists>c. Get ([a', r] ! (0 + 1)) ''content'' = Some (JArray c) \<and>
                 (\<exists>item \<in> set c. String (\<lambda>v. []) (Get item ''type'') = ''tool_result''))"
    by (simp add: r_def)
  from one c1 have one': "\<exists>body'. FixIncompleteToolUse (\<lambda>v. []) (JObject [(''model'', JString ''m''), (''messages'', JArray [u, a])])
                 = (body', True, None) \<and>
                 Get body' ''messages'' = Some (JArray ([u, a] @
                   [JObject [(''content'', JArray (map (\<lambda>tool_id.
                       JObject [(''content'', JString interrupted_text), (''is_error'', JBool True),
                                (''tool_use_id'', JString tool_id), (''type'', JString ''tool_result'')])
                       [''T1'', ''T2''])),
                     (''role'', JString ''user'')]]))"
    by (simp only: simp_thms if_False)
  from two c2 have two': "FixIncompleteToolUse (\<lambda>v. []) (JObject [(''messages'', JArray [a', r])])
              = (JObject [(''messages'', JArray [a', r])], False, None)"
    by (simp only: if_True)
  from one' two' show ?thesis
    unfolding Let_def u_def a_def a'_def r_def by simp
qed

text \<open>
  When the last assistant message is the last message of the array, the appended
  message is the one right after it, and a second call changes nothing.
\<close>

lemma find_lastAssistantIdx_append:
  "n \<le> length msgs \<Longrightarrow> find_lastAssistantIdx t (msgs @ extra) n = find_lastAssistantIdx t msgs n"
  by (induction n) (simp_all add: nth_append)

lemma FixIncompleteToolUse_idempotent_when_last:
  assumes "Get body ''messages'' = Some (JArray msgs)"
    and "find_lastAssistantIdx t msgs (length msgs) = Some i"
    and "i + 1 = length msgs"
  shows "FixIncompleteToolUse t (fst (FixIncompleteToolUse t body)) =
           (fst (FixIncompleteToolUse t body), False, None)"
proof -
  from FixIncompleteToolUse_cases [of t body]
  consider (same) "FixIncompleteToolUse t body = (body, False, None)"
    | (set) msgs' i' items where "Get body ''messages'' = Some (JArray msgs')"
        "find_lastAssistantIdx t msgs' (length msgs') = Some i'"
        "Get (msgs' ! i') ''content'' = Some (JArray items)"
        "collect_toolUseIDs t items \<noteq> []"
        "FixIncompleteToolUse t body =
          (case SetBytes body ''messages'' (length msgs') (newUserMsg (collect_toolUseIDs t items)) of
             Inl err \<Rightarrow> (body, False, Some (GoError (repair_failed_prefix @ err)))
           | Inr modified \<Rightarrow> (modified, True, None))"
    by blast
  then show ?thesis
  proof cases
    case same
    then show ?thesis by simp
  next
    case set
    from set(1,2) assms(1,2) have eq: "msgs' = msgs" "i' = i" by simp_all
    let ?ids = "collect_toolUseIDs t items"
    let ?new = "newUserMsg ?ids"
    from SetBytes_append [OF assms(1), of ?new] obtain pre post where
      p: "''messages'' \<notin> fst ` set pre"
        "SetBytes body ''messages'' (length msgs) ?new =
           Inr (JObject (pre @ (''messages'', JArray (msgs @ [?new])) # post))"
      by blast
    let ?y = "JObject (pre @ (''messages'', JArray (msgs @ [?new])) # post)"
    have r: "fst (FixIncompleteToolUse t body) = ?y"
      using set(5) p(2) eq by simp
    have g: "Get ?y ''messages'' = Some (JArray (msgs @ [?new]))"
      using p(1) by (rule Get_first_member)
    have i: "i < length msgs" using assms(3) by simp
    have role: "String t (Get ?new ''role'') = ''user''"
      by (simp add: newUserMsg_def)
    have f: "find_lastAssistantIdx t (msgs @ [?new]) (length (msgs @ [?new])) = Some i"
      using role assms(2) by (simp add: find_lastAssistantIdx_append nth_append)
    have c: "Get ((msgs @ [?new]) ! i) ''content'' = Some (JArray items)"
      using i set(3) eq by (simp add: nth_append)
    obtain d ds where ids: "?ids = d # ds"
      using set(4) by (cases ?ids) auto
    have h: "hasToolResult t (msgs @ [?new]) i"
      unfolding hasToolResult_iff using assms(3) [symmetric]
      by (simp add: nth_append newUserMsg_def ids toolResult_def)
    have "FixIncompleteToolUse t ?y = (?y, False, None)"
      unfolding FixIncompleteToolUse_def g by (simp add: f c h Let_def del: length_append)
    with r show ?thesis by simp
  qed
qed

text \<open>
  Claim C5, idempotence of the repair, evaluated at a body whose last assistant message
  is followed by a user message without \<^verbatim>\<open>tool_result\<close>. The first call appends the
  synthetic message at the end of the array, behind that user message; the second call
  looks again at the message right after the assistant message, finds no
  \<^verbatim>\<open>tool_result\<close> there, and appends a second synthetic message.
\<close>

theorem FixIncompleteToolUse_not_idempotent:
  "let a = JObject [(''role'', JString ''assistant''),
                    (''content'', JArray [JObject [(''type'', JString ''tool_use''), (''id'', JString ''T1'')]])];
       u = JObject [(''role'', JString ''user''), (''content'', JString ''hi'')];
       n = JObject [(''content'', JArray [JObject [(''content'', JString interrupted_text),
                      (''is_error'', JBool True), (''tool_use_id'', JString ''T1''),
                      (''type'', JString ''tool_result'')]]), (''role'', JString ''user'')];
       x = JObject [(''messages'', JArray [a, u])];
       r1 = FixIncompleteToolUse (\<lambda>v. []) x;
       r2 = FixIncompleteToolUse (\<lambda>v. []) (fst r1)
   in r1 = (JObject [(''messages'', JArray [a, u, n])], True, None) \<and>
      r2 = (JObject [(''messages'', JArray [a, u, n, n])], True, None) \<and>
      r2 \<noteq> (fst r1, False, None)"
  by (simp add: repair_eval)

text \<open>
  Claim C6. \<open>FixIncompleteToolUse\<close> only adds: for every body, either the body comes back
  as it is with \<open>repaired = False\<close>, or \<open>repaired = True\<close> and the output is the input
  object with the same members in the same order, all unchanged but the first
  \<^verbatim>\<open>messages\<close> member, whose array is the old array with exactly one message appended
  at the end. So the array never gets shorter and no message or field is removed.
\<close>

theorem FixIncompleteToolUse_additive:
  "(fst (FixIncompleteToolUse text_of body) = body \<and> \<not> fst (snd (FixIncompleteToolUse text_of body))) \<or>
   (fst (snd (FixIncompleteToolUse text_of body)) \<and>
    (\<exists>pre msgs post m.
       body = JObject (pre @ (''messages'', JArray msgs) # post) \<and> ''messages'' \<notin> fst ` set pre \<and>
       Get body ''messages'' = Some (JArray msgs) \<and>
       fst (FixIncompleteToolUse text_of body) = JObject (pre @ (''messages'', JArray (msgs @ [m])) # post) \<and>
       Get (fst (FixIncompleteToolUse text_of body)) ''messages'' = Some (JArray (msgs @ [m]))))"
proof -
  from FixIncompleteToolUse_cases [of text_of body]
  consider (same) "FixIncompleteToolUse text_of body = (body, False, None)"
    | (set) msgs ids where "Get body ''messages'' = Some (JArray msgs)"
        "FixIncompleteToolUse text_of body =
          (case SetBytes body ''messages'' (length msgs) (newUserMsg ids) of
             Inl err \<Rightarrow> (body, False, Some (GoError (repair_failed_prefix @ err)))
           | Inr modified \<Rightarrow> (modified, True, None))"
    by blast
  then show ?thesis
  proof cases
    case same
    then show ?thesis by simp
  next
    case set
    from SetBytes_append [OF set(1), of "newUserMsg ids"] obtain pre post where
      p: "body = JObject (pre @ (''messages'', JArray msgs) # post)" "''messages'' \<notin> fst ` set pre"
        "SetBytes body ''messages'' (length msgs) (newUserMsg ids) =
           Inr (JObject (pre @ (''messages'', JArray (msgs @ [newUserMsg ids])) # post))"
      by blast
    have r: "FixIncompleteToolUse text_of body =
        (JObject (pre @ (''messages'', JArray (msgs @ [newUserMsg ids])) # post), True, None)"
      by (simp add: set(2) p(3))
    have g: "Get (JObject (pre @ (''messages'', JArray (msgs @ [newUserMsg ids])) # post)) ''messages'' =
        Some (JArray (msgs @ [newUserMsg ids]))"
      using p(2) by (rule Get_first_member)
    have "fst (snd (FixIncompleteToolUse text_of body))" by (simp add: r)
    moreover have "\<exists>pre msgs post m.
       body = JObject (pre @ (''messages'', JArray msgs) # post) \<and> ''messages'' \<notin> fst ` set pre \<and>
       Get body ''messages'' = Some (JArray msgs) \<and>
       fst (FixIncompleteToolUse text_of body) = JObject (pre @ (''messages'', JArray (msgs @ [m])) # post) \<and>
       Get (fst (FixIncompleteToolUse text_of body)) ''messages'' = Some (JArray (msgs @ [m]))"
      using p(1,2) set(1) g unfolding r fst_conv by blast
    ultimately show ?thesis by blast
  qed
qed

theorem FixIncompleteToolUse_additive_witness:
  "fst (snd (FixIncompleteToolUse (\<lambda>v. [])
      (JObject [(''model'', JString ''m''),
                (''messages'', JArray [JObject [(''role'', JString ''assistant''),
                   (''content'', JArray [JObject [(''type'', JString ''tool_use''), (''id'', JString ''T1'')]])]]),
                (''stream'', JBool True)]))) \<and>
   (\<exists>m. fst (FixIncompleteToolUse (\<lambda>v. [])
      (JObject [(''model'', JString ''m''),
                (''messages'', JArray [JObject [(''role'', JString ''assistant''),
                   (''content'', JArray [JObject [(''type'', JString ''tool_use''), (''id'', JString ''T1'')]])]]),
                (''stream'', JBool True)])) =
      JObject [(''model'', JString ''m''),
                (''messages'', JArray [JObject [(''role'', JString ''assistant''),
                   (''content'', JArray [JObject [(''type'', JString ''tool_use''), (''id'', JString ''T1'')]])], m]),
                (''stream'', JBool True)])"
proof -
  let ?a = "JObject [(''role'', JString ''assistant''),
                   (''content'', JArray [JObject [(''type'', JString ''tool_use''), (''id'', JString ''T1'')]])]"
  let ?b = "JObject [(''model'', JString ''m''), (''messages'', JArray [?a]), (''stream'', JBool True)]"
  have rep: "fst (snd (FixIncompleteToolUse (\<lambda>v. []) ?b))"
    by (simp add: repair_eval)
  with FixIncompleteToolUse_additive [of "\<lambda>v. []" ?b]
  obtain pre msgs post m where
    p: "?b = JObject (pre @ (''messages'', JArray msgs) # post)"
       "Get ?b ''messages'' = Some (JArray msgs)"
       "''messages'' \<notin> fst ` set pre"
       "fst (FixIncompleteToolUse (\<lambda>v. []) ?b) = JObject (pre @ (''messages'', JArray (msgs @ [m])) # post)"
       "Get (fst (FixIncompleteToolUse (\<lambda>v. []) ?b)) ''messages'' = Some (JArray (msgs @ [m]))"
    by blast
  from p(2) have msgs: "msgs = [?a]" by simp
  have "pre = [(''model'', JString ''m'')] \<and> post = [(''stream'', JBool True)]"
  proof (cases pre)
    case Nil
    with p(1) show ?thesis by simp
  next
    case (Cons kv pre')
    with p(1) have kv: "kv = (''model'', JString ''m'')" and
      rest: "[(''messages'', JArray [?a]), (''stream'', JBool True)] = pre' @ (''messages'', JArray msgs) # post"
      by simp_all
    show ?thesis
    proof (cases pre')
      case Nil
      with rest kv Cons show ?thesis by simp
    next
      case (Cons kv' pre'')
      with rest have "kv' = (''messages'', JArray [?a])" by simp
      with p(3) \<open>pre = kv # pre'\<close> Cons show ?thesis by simp
    qed
  qed
  with p(4) msgs rep show ?thesis by auto
qed

end
